theory Spec2Isabelle
  imports Complex_Main "HOL-Library.Char_ord" "HOL-Library.List_Lexorder"
    "HOL-Library.Multiset"
begin

section \<open>Data model of dashboard.py\<close>

text \<open>
  A pandas Timestamp is modelled as the integer number of seconds since the epoch, a
  calendar date as the integer number of days since the epoch. A missing timestamp
  (NaT, what \<open>pd.to_datetime\<close> gives for an empty cell) is \<open>None\<close>.
  Floating-point columns (price, payment_value) are modelled as exact reals; no
  property below depends on rounding.
\<close>

type_synonym timestamp = int
type_synonym date = int

text \<open>One row of \<open>ordered_df.csv\<close>: one order line item.\<close>

record order_fact =
  order_id :: string
  order_item_id :: int
  customer_id :: string
  customer_city :: string
  customer_state :: string
  seller_city :: string
  order_approved_at :: "timestamp option"
  price :: real
  payment_type :: string
  payment_value :: real
  payment_installments :: int
  name_product :: string

text \<open>\<open>.dt.date\<close>: the calendar date of a timestamp (floor division, also before 1970).\<close>

definition date_of :: "timestamp \<Rightarrow> date" where
  "date_of t = t div 86400"

text \<open>\<open>pd.to_datetime(d)\<close> for a \<open>datetime.date\<close>: midnight at the start of that day.\<close>

definition to_datetime :: "date \<Rightarrow> timestamp" where
  "to_datetime d = d * 86400"

text \<open>\<open>Series.nunique()\<close>: the number of distinct values of a column.\<close>

definition nunique :: "'a list \<Rightarrow> nat" where
  "nunique xs = length (remdups xs)"

text \<open>\<open>Series.max()\<close> of an integer-valued column; \<open>None\<close> on an empty column.\<close>

definition max_opt :: "int list \<Rightarrow> int option" where
  "max_opt xs = (case xs of [] \<Rightarrow> None | x # ys \<Rightarrow> Some (fold max ys x))"

definition min_opt :: "int list \<Rightarrow> int option" where
  "min_opt xs = (case xs of [] \<Rightarrow> None | x # ys \<Rightarrow> Some (fold min ys x))"

text \<open>The present (non-NaT) values of \<open>df["order_approved_at"]\<close>, in row order.\<close>

definition approved_times :: "order_fact list \<Rightarrow> timestamp list" where
  "approved_times df = List.map_filter order_approved_at df"

text \<open>The group keys of \<open>df.groupby(col)\<close>: the distinct values, sorted ascending.\<close>

definition group_keys :: "('r \<Rightarrow> string) \<Rightarrow> 'r list \<Rightarrow> string list" where
  "group_keys col df = sort (remdups (map col df))"

section \<open>Date-range filter (lines 77-79)\<close>

text \<open>
  \<open>main_df = all_df[(all_df["order_approved_at"] >= pd.to_datetime(start_date)) &
                     (all_df["order_approved_at"] <= pd.to_datetime(end_date))]\<close>.
  A comparison with NaT is False, so rows without an approval time are dropped.
\<close>

definition main_df :: "order_fact list \<Rightarrow> date \<Rightarrow> date \<Rightarrow> order_fact list" where
  "main_df all_df start_date end_date =
     filter (\<lambda>r. case order_approved_at r of
                    None \<Rightarrow> False
                  | Some t \<Rightarrow> to_datetime start_date \<le> t \<and> t \<le> to_datetime end_date)
            all_df"

section \<open>Daily orders rollup (lines 12-23)\<close>

text \<open>
  \<open>df.resample(rule='D', on='order_approved_at').agg({"order_id": "nunique", "price": "sum"})\<close>.
  A daily resample makes one bin for every calendar day from the day of the earliest
  timestamp to the day of the latest one, and aggregates the rows of each bin; a bin
  without rows gets \<open>nunique = 0\<close> and \<open>sum = 0\<close>. The bin label (column
  \<open>order_approved_at\<close> after \<open>reset_index\<close>) is kept as the day number \<open>day\<close>.
\<close>

record daily_orders_row =
  day :: date
  order_count :: nat
  revenue :: real

definition rows_on :: "date \<Rightarrow> order_fact list \<Rightarrow> order_fact list" where
  "rows_on d df = filter (\<lambda>r. map_option date_of (order_approved_at r) = Some d) df"

definition daily_bin :: "order_fact list \<Rightarrow> date \<Rightarrow> daily_orders_row" where
  "daily_bin df d =
     \<lparr>day = d,
      order_count = nunique (map order_id (rows_on d df)),
      revenue = sum_list (map price (rows_on d df))\<rparr>"

definition create_daily_orders_df :: "order_fact list \<Rightarrow> daily_orders_row list" where
  "create_daily_orders_df df =
     (case (min_opt (approved_times df), max_opt (approved_times df)) of
        (Some lo, Some hi) \<Rightarrow> map (daily_bin df) [date_of lo .. date_of hi]
      | _ \<Rightarrow> [])"

text \<open>Line 96: \<open>total_orders = daily_orders_df.order_count.sum()\<close>.\<close>

definition total_orders :: "order_fact list \<Rightarrow> nat" where
  "total_orders df = sum_list (map order_count (create_daily_orders_df df))"

section \<open>Product quantity ranking (lines 25-29, 123, 131)\<close>

text \<open>
  \<open>order_item_id\<close> is an int64 column, and the group sum is computed in int64: a sum
  outside the signed 64-bit range wraps around. \<open>int64\<close> is that wrap-around.
\<close>

definition int64 :: "int \<Rightarrow> int" where
  "int64 x = (x + 9223372036854775808) mod 18446744073709551616 - 9223372036854775808"

text \<open>
  \<open>Series.sort_values\<close> and \<open>DataFrame.sort_values\<close> go through pandas'
  \<open>nargsort\<close>, which calls numpy's \<open>argsort\<close> on the key column. The default kind
  (quicksort) fixes no order among equal keys, so the argsort is a parameter of the
  model: a function from the keys to a list of positions. \<open>is_argsort\<close> says what
  every argsort guarantees: the positions are a rearrangement of \<open>0..<n\<close>, and the
  keys read in that order are ascending.
\<close>

type_synonym argsort = "int list \<Rightarrow> nat list"

definition is_argsort :: "argsort \<Rightarrow> bool" where
  "is_argsort argsort \<longleftrightarrow>
     (\<forall>keys. mset (argsort keys) = mset [0 ..< length keys]
           \<and> sorted (map (\<lambda>i. keys ! i) (argsort keys)))"

text \<open>
  The argsort that keeps equal keys in their order (an insertion sort of the positions
  by key). numpy's quicksort sorts an array of at most 16 elements this way.
\<close>

definition stable_argsort :: argsort where
  "stable_argsort keys = map snd (sort_key fst (zip keys [0 ..< length keys]))"

type_synonym quantity_row = "string \<times> int"

text \<open>
  \<open>nargsort\<close> with \<open>ascending=True\<close>: the rows taken in the order of the argsort of
  their keys.
\<close>

definition sort_values_asc :: "argsort \<Rightarrow> quantity_row list \<Rightarrow> quantity_row list" where
  "sort_values_asc argsort t = map (\<lambda>i. t ! i) (argsort (map snd t))"

text \<open>
  \<open>nargsort\<close> with \<open>ascending=False\<close>: the rows are reversed, argsorted ascending,
  and the result is reversed.
\<close>

definition sort_values_desc :: "argsort \<Rightarrow> quantity_row list \<Rightarrow> quantity_row list" where
  "sort_values_desc argsort t = rev (sort_values_asc argsort (rev t))"

text \<open>\<open>df.groupby("name_product").order_item_id.sum()\<close> for one product label.\<close>

definition quantity_of :: "order_fact list \<Rightarrow> string \<Rightarrow> int" where
  "quantity_of df p =
     int64 (sum_list (map order_item_id (filter (\<lambda>r. name_product r = p) df)))"

definition create_sum_order_items_df :: "argsort \<Rightarrow> order_fact list \<Rightarrow> quantity_row list" where
  "create_sum_order_items_df argsort df =
     sort_values_desc argsort
       (map (\<lambda>p. (p, quantity_of df p)) (group_keys name_product df))"

text \<open>Line 123: \<open>sum_order_items_df.head(5)\<close>.\<close>

definition best_performing :: "argsort \<Rightarrow> order_fact list \<Rightarrow> quantity_row list" where
  "best_performing argsort df = take 5 (create_sum_order_items_df argsort df)"

text \<open>Line 131: \<open>sum_order_items_df.sort_values(by="quantity", ascending=True).head(5)\<close>.\<close>

definition worst_performing :: "argsort \<Rightarrow> order_fact list \<Rightarrow> quantity_row list" where
  "worst_performing argsort df =
     take 5 (sort_values_asc argsort (create_sum_order_items_df argsort df))"

section \<open>Customers by state (lines 31-37)\<close>

text \<open>
  \<open>df.groupby(by="customer_state").customer_id.nunique().reset_index()\<close>: rows
  \<open>(customer_state, customer_count)\<close>, one per state, states ascending.
\<close>

definition create_bystate_df :: "order_fact list \<Rightarrow> (string \<times> nat) list" where
  "create_bystate_df df =
     map (\<lambda>s. (s, nunique (map customer_id (filter (\<lambda>r. customer_state r = s) df))))
         (group_keys customer_state df)"

section \<open>RFM segmentation\<close>

text \<open>
  One row of an RFM table. \<open>recency\<close> is \<open>None\<close> where pandas gives NaN (a
  customer none of whose rows has an approval time).
\<close>

record rfm_row =
  rfm_customer_id :: string
  frequency :: nat
  monetary :: real
  recency :: "int option"

definition rows_of_customer :: "order_fact list \<Rightarrow> string \<Rightarrow> order_fact list" where
  "rows_of_customer df c = filter (\<lambda>r. customer_id r = c) df"

text \<open>
  Lines 39-52, \<open>create_rfm_df\<close>: the latest approval per customer is truncated to its
  date, \<open>recent_date\<close> is the latest approval date of the table, and recency is the
  difference of the two dates in days.
\<close>

definition recent_date :: "order_fact list \<Rightarrow> date option" where
  "recent_date df = max_opt (map date_of (approved_times df))"

definition create_rfm_df :: "order_fact list \<Rightarrow> rfm_row list" where
  "create_rfm_df df =
     map (\<lambda>c. \<lparr>rfm_customer_id = c,
                frequency = nunique (map order_id (rows_of_customer df c)),
                monetary = sum_list (map payment_value (rows_of_customer df c)),
                recency =
                  (case (recent_date df, max_opt (approved_times (rows_of_customer df c))) of
                     (Some rd, Some x) \<Rightarrow> Some (rd - date_of x)
                   | _ \<Rightarrow> None)\<rparr>)
         (group_keys customer_id df)"

text \<open>
  Lines 576-584, the table the RFM section displays: \<open>current_date\<close> is the latest
  approval timestamp of \<open>all_df\<close>, and recency is \<open>(current_date - x.max()).days\<close>,
  the whole days of the difference of two timestamps.
\<close>

definition current_date :: "order_fact list \<Rightarrow> timestamp option" where
  "current_date all_df = max_opt (approved_times all_df)"

definition rfm_df :: "order_fact list \<Rightarrow> rfm_row list" where
  "rfm_df all_df =
     map (\<lambda>c. \<lparr>rfm_customer_id = c,
                frequency = nunique (map order_id (rows_of_customer all_df c)),
                monetary = sum_list (map payment_value (rows_of_customer all_df c)),
                recency =
                  (case (current_date all_df,
                         max_opt (approved_times (rows_of_customer all_df c))) of
                     (Some cd, Some x) \<Rightarrow> Some ((cd - x) div 86400)
                   | _ \<Rightarrow> None)\<rparr>)
         (group_keys customer_id all_df)"

section \<open>Geographic bucketing (lines 644-648, 680-681)\<close>

text \<open>
  One row of \<open>geo_result_df.csv\<close>; \<open>geo_customer_state\<close> is its column
  \<open>customer_state\<close>, \<open>None\<close> where the cell is empty (NaN after \<open>read_csv\<close>).
\<close>

record geo_fact =
  geolocation_lat :: real
  geolocation_lng :: real
  geo_customer_state :: "string option"

definition colors :: "string list" where
  "colors = [''#003f5c'', ''#2f4b7c'', ''#665191'', ''#a05195'',
             ''#d45087'', ''#f95d6a'', ''#ff7c43'', ''#ffa600'']"

fun index_of :: "'a \<Rightarrow> 'a list \<Rightarrow> nat option" where
  "index_of x [] = None"
| "index_of x (u # us) = (if u = x then Some 0 else map_option Suc (index_of x us))"

text \<open>
  \<open>pd.factorize(values)[0]\<close>: one pass over the column with the table of values seen
  so far (\<open>uniques\<close>); a value already in the table gets its position there, a new
  value is appended and gets the next position. A missing value gets the sentinel
  code -1 and does not enter the table.
\<close>

fun factorize_from :: "'a list \<Rightarrow> 'a option list \<Rightarrow> int list" where
  "factorize_from uniques [] = []"
| "factorize_from uniques (None # xs) = -1 # factorize_from uniques xs"
| "factorize_from uniques (Some x # xs) =
     (case index_of x uniques of
        Some i \<Rightarrow> int i # factorize_from uniques xs
      | None \<Rightarrow> int (length uniques) # factorize_from (uniques @ [x]) xs)"

definition factorize :: "'a option list \<Rightarrow> int list" where
  "factorize xs = factorize_from [] xs"

text \<open>
  \<open>geo_df['color_group'] = pd.factorize(geo_df['customer_state'])[0] % len(colors)\<close>:
  the new column, one entry per row of \<open>geo_df\<close>. The remainder has the sign of the
  divisor, as \<open>mod\<close> on \<open>int\<close> has: \<open>-1 % 8 = 7\<close>.
\<close>

definition color_group :: "geo_fact list \<Rightarrow> int list" where
  "color_group geo_df =
     map (\<lambda>code. code mod int (length colors)) (factorize (map geo_customer_state geo_df))"

section \<open>Brazil boundary acquisition (lines 664-677)\<close>

text \<open>
  A GeoDataFrame is a list of column names and a list of features, each with its
  attribute values and a geometry. \<open>gdf[col]\<close> raises KeyError when the frame has
  no such column.
\<close>

datatype exn = KeyError string | AttributeError string | IOError string | CRSError string
  | ImportError string | StreamlitError string

datatype geometry = Polygon "(real \<times> real) list"

record geodataframe =
  columns :: "string list"
  features :: "((string \<times> string) list \<times> geometry) list"

text \<open>
  What the library calls of the statement do is the environment's answer: the path
  \<open>gpd.datasets.get_path\<close> returns or the exception it raises, the frame
  \<open>gpd.read_file\<close> returns for a path or URL or the exception it raises, and for
  \<open>st.warning\<close>, the import of \<open>box\<close> and the \<open>GeoDataFrame\<close> constructor the
  exception raised, if any.
\<close>

record environment =
  get_path :: "exn + string"
  read_file :: "string \<Rightarrow> exn + geodataframe"
  st_warning :: "exn option"
  import_box :: "exn option"
  GeoDataFrame :: "exn option"

text \<open>\<open>gdf[gdf[col] == v]\<close>.\<close>

definition select_eq :: "geodataframe \<Rightarrow> string \<Rightarrow> string \<Rightarrow> exn + geodataframe" where
  "select_eq gdf col v =
     (if col \<in> set (columns gdf)
      then Inr (gdf\<lparr>features := filter (\<lambda>f. map_of (fst f) col = Some v) (features gdf)\<rparr>)
      else Inl (KeyError col))"


definition brazil_url :: string where
  "brazil_url =
     ''https://raw.githubusercontent.com/datasets/geo-countries/master/data/countries.geojson''"

text \<open>The body of the first try block: the bundled \<open>naturalearth_lowres\<close> dataset.\<close>

definition local_tier :: "environment \<Rightarrow> exn + geodataframe" where
  "local_tier env =
     (case get_path env of
        Inl e \<Rightarrow> Inl e
      | Inr path \<Rightarrow>
          (case read_file env path of
             Inl e \<Rightarrow> Inl e
           | Inr world \<Rightarrow> select_eq world ''name'' ''Brazil''))"

text \<open>The body of the second try block: the countries GeoJSON fetched from the network.\<close>

definition network_tier :: "environment \<Rightarrow> exn + geodataframe" where
  "network_tier env =
     (case read_file env brazil_url of
        Inl e \<Rightarrow> Inl e
      | Inr countries \<Rightarrow> select_eq countries ''ADMIN'' ''Brazil'')"



section \<open>Concrete tables for the examples\<close>

text \<open>
  A row with the given order, line number, customer, state, approval time and product
  label; the other columns are fixed.
\<close>

definition example_row ::
  "string \<Rightarrow> int \<Rightarrow> string \<Rightarrow> string \<Rightarrow> timestamp option \<Rightarrow> string \<Rightarrow> order_fact" where
  "example_row oid item cid st t p =
     \<lparr>order_id = oid, order_item_id = item, customer_id = cid, customer_city = ''sao paulo'',
      customer_state = st, seller_city = ''curitiba'', order_approved_at = t, price = 10,
      payment_type = ''credit_card'', payment_value = 10, payment_installments = 1,
      name_product = p\<rparr>"

text \<open>Two orders approved at midnight of day 2 and of day 4; nothing on day 3.\<close>

definition example_gap_days :: "order_fact list" where
  "example_gap_days =
     [example_row ''o1'' 1 ''A'' ''SP'' (Some 172800) ''toys'',
      example_row ''o2'' 1 ''B'' ''SP'' (Some 345600) ''toys'']"

text \<open>One order whose two lines carry approval times on day 2 and on day 3.\<close>

definition example_split_order :: "order_fact list" where
  "example_split_order =
     [example_row ''o1'' 1 ''A'' ''SP'' (Some 172800) ''toys'',
      example_row ''o1'' 2 ''A'' ''SP'' (Some 259200) ''toys'']"

text \<open>Customer A with two orders in SP, customer B with one order in RJ.\<close>

definition example_two_states :: "order_fact list" where
  "example_two_states =
     [example_row ''o1'' 1 ''A'' ''SP'' (Some 172800) ''toys'',
      example_row ''o2'' 1 ''A'' ''SP'' (Some 259200) ''toys'',
      example_row ''o3'' 1 ''B'' ''RJ'' (Some 259200) ''toys'']"

text \<open>Three geolocation samples: SP, RJ, SP.\<close>

definition example_geo :: "geo_fact list" where
  "example_geo =
     [\<lparr>geolocation_lat = -23.5, geolocation_lng = -46.6, geo_customer_state = Some ''SP''\<rparr>,
      \<lparr>geolocation_lat = -22.9, geolocation_lng = -43.2, geo_customer_state = Some ''RJ''\<rparr>,
      \<lparr>geolocation_lat = -23.6, geolocation_lng = -46.7, geo_customer_state = Some ''SP''\<rparr>]"

text \<open>A sample without a state, then SP, then another sample without a state.\<close>

definition example_geo_missing :: "geo_fact list" where
  "example_geo_missing =
     [\<lparr>geolocation_lat = -23.5, geolocation_lng = -46.6, geo_customer_state = None\<rparr>,
      \<lparr>geolocation_lat = -23.6, geolocation_lng = -46.7, geo_customer_state = Some ''SP''\<rparr>,
      \<lparr>geolocation_lat = -22.9, geolocation_lng = -43.2, geo_customer_state = None\<rparr>]"



text \<open>Ten product labels, each with one line numbered 1: all quantities are equal.\<close>

definition example_ten_products :: "order_fact list" where
  "example_ten_products =
     map (\<lambda>p. example_row ''o1'' 1 ''A'' ''SP'' (Some 172800) p)
         [''p0'', ''p1'', ''p2'', ''p3'', ''p4'', ''p5'', ''p6'', ''p7'', ''p8'', ''p9'']"

text \<open>Ten product labels with the quantities 1, 1, 3, 4, 5, 6, 7, 8, 9, 9.\<close>

definition example_ranked_products :: "order_fact list" where
  "example_ranked_products =
     map (\<lambda>(p, i). example_row ''o1'' i ''A'' ''SP'' (Some 172800) p)
         [(''p0'', 1), (''p1'', 1), (''p2'', 3), (''p3'', 4), (''p4'', 5),
          (''p5'', 6), (''p6'', 7), (''p7'', 8), (''p8'', 9), (''p9'', 9)]"

text \<open>Two lines of one product whose numbers add up to \<open>2^63\<close>.\<close>

definition example_overflow :: "order_fact list" where
  "example_overflow =
     [example_row ''o1'' 9223372036854775807 ''A'' ''SP'' (Some 172800) ''toys'',
      example_row ''o2'' 1 ''B'' ''SP'' (Some 172800) ''toys'']"

text \<open>Order o1 with three lines of toys (numbered 1, 2, 3), order o2 with one line.\<close>

definition example_three_lines :: "order_fact list" where
  "example_three_lines =
     [example_row ''o1'' 1 ''A'' ''SP'' (Some 172800) ''toys'',
      example_row ''o1'' 2 ''A'' ''SP'' (Some 172800) ''toys'',
      example_row ''o1'' 3 ''A'' ''SP'' (Some 172800) ''toys'',
      example_row ''o2'' 1 ''B'' ''RJ'' (Some 259200) ''toys'']"

text \<open>Customer A approved at the first instant of day 0, customer B on day 10.\<close>

definition example_far_customers :: "order_fact list" where
  "example_far_customers =
     [example_row ''o1'' 1 ''A'' ''SP'' (Some 0) ''toys'',
      example_row ''o2'' 1 ''B'' ''SP'' (Some 864000) ''toys'']"

text \<open>Customer A approved at 23:00 of day 0, customer B at 01:00 of day 1.\<close>

definition example_near_midnight :: "order_fact list" where
  "example_near_midnight =
     [example_row ''o1'' 1 ''A'' ''SP'' (Some 82800) ''toys'',
      example_row ''o2'' 1 ''B'' ''SP'' (Some 90000) ''toys'']"

section \<open>Basic facts about the column operations\<close>

lemma max_opt_Max: "xs \<noteq> [] \<Longrightarrow> max_opt xs = Some (Max (set xs))"
  by (cases xs) (simp_all add: max_opt_def Max.set_eq_fold[symmetric])

lemma min_opt_Min: "xs \<noteq> [] \<Longrightarrow> min_opt xs = Some (Min (set xs))"
  by (cases xs) (simp_all add: min_opt_def Min.set_eq_fold[symmetric])

lemma max_opt_Nil: "max_opt [] = None"
  by (simp add: max_opt_def)

lemma min_opt_Nil: "min_opt [] = None"
  by (simp add: min_opt_def)

lemma set_approved_times:
  "set (approved_times df) = {t. \<exists>r \<in> set df. order_approved_at r = Some t}"
  by (force simp: approved_times_def List.map_filter_def)

lemma nunique_card: "nunique xs = card (set xs)"
  by (simp add: nunique_def card_set)

lemma date_of_mono: "s \<le> t \<Longrightarrow> date_of s \<le> date_of t"
  by (simp add: date_of_def zdiv_mono1)

lemma date_of_Min:
  assumes "xs \<noteq> []"
  shows "date_of (Min (set xs)) = Min (set (map date_of xs))"
proof -
  have "date_of (Min (set xs)) = Min (date_of ` set xs)"
    using assms by (intro mono_Min_commute) (auto simp: mono_def date_of_mono)
  then show ?thesis by simp
qed

lemma date_of_Max:
  assumes "xs \<noteq> []"
  shows "date_of (Max (set xs)) = Max (set (map date_of xs))"
proof -
  have "date_of (Max (set xs)) = Max (date_of ` set xs)"
    using assms by (intro mono_Max_commute) (auto simp: mono_def date_of_mono)
  then show ?thesis by simp
qed

lemma distinct_group_keys: "distinct (group_keys col df)"
  by (simp add: group_keys_def)

lemma set_group_keys: "set (group_keys col df) = col ` set df"
  by (simp add: group_keys_def)

text \<open>
  Per-group distinct counts add up to the distinct count of the whole table when the
  counted column determines the group key.
\<close>

lemma sum_nunique_groups:
  assumes ks: "distinct ks"
    and cover: "k ` set df \<subseteq> set ks"
    and fd: "\<forall>r \<in> set df. \<forall>r' \<in> set df. f r = f r' \<longrightarrow> k r = k r'"
  shows "sum_list (map (\<lambda>s. nunique (map f (filter (\<lambda>r. k r = s) df))) ks) = nunique (map f df)"
proof -
  let ?G = "\<lambda>s. f ` {r \<in> set df. k r = s}"
  have "sum_list (map (\<lambda>s. nunique (map f (filter (\<lambda>r. k r = s) df))) ks)
        = sum_list (map (\<lambda>s. card (?G s)) ks)"
    by (simp add: nunique_card)
  also have "\<dots> = (\<Sum>s \<in> set ks. card (?G s))"
    using ks by (simp add: sum_list_distinct_conv_sum_set)
  also have "\<dots> = card (\<Union>s \<in> set ks. ?G s)"
  proof (rule card_UN_disjoint[symmetric])
    show "finite (set ks)" by simp
    show "\<forall>s \<in> set ks. finite (?G s)" by simp
    show "\<forall>s \<in> set ks. \<forall>s' \<in> set ks. s \<noteq> s' \<longrightarrow> ?G s \<inter> ?G s' = {}"
      using fd by fastforce
  qed
  also have "(\<Union>s \<in> set ks. ?G s) = f ` set df"
    using cover by auto
  finally show ?thesis by (simp add: nunique_card)
qed

lemmas example_simps =
  example_row_def main_df_def to_datetime_def date_of_def approved_times_def
  List.map_filter_simps rows_on_def daily_bin_def nunique_def min_opt_def max_opt_def
  create_daily_orders_df_def total_orders_def group_keys_def

section \<open>The date-range filter\<close>

lemma main_df_approved:
  "r \<in> set (main_df all_df start_date end_date) \<Longrightarrow> order_approved_at r \<noteq> None"
  by (auto simp: main_df_def split: option.splits)

text \<open>What the filter keeps: the end bound is the first instant of \<open>end_date\<close>.\<close>

lemma set_main_df:
  "set (main_df all_df start_date end_date) =
     {r \<in> set all_df. \<exists>t. order_approved_at r = Some t
                          \<and> start_date * 86400 \<le> t \<and> t \<le> end_date * 86400}"
  by (auto simp: main_df_def to_datetime_def split: option.splits)

text \<open>Every kept row lies on a date of the range.\<close>

lemma main_df_within_dates:
  assumes "r \<in> set (main_df all_df start_date end_date)"
  shows "\<exists>t. order_approved_at r = Some t \<and> start_date \<le> date_of t \<and> date_of t \<le> end_date"
proof -
  from assms obtain t where t: "order_approved_at r = Some t"
    "start_date * 86400 \<le> t" "t \<le> end_date * 86400"
    by (auto simp: set_main_df)
  have "start_date \<le> t div 86400" using t(2) by linarith
  moreover have "t div 86400 \<le> end_date" using t(3) by linarith
  ultimately show ?thesis using t(1) by (auto simp: date_of_def)
qed

text \<open>A row approved after midnight on \<open>end_date\<close> is never kept.\<close>

lemma main_df_excludes_later_on_end_date:
  assumes "order_approved_at r = Some t" "date_of t = end_date" "t mod 86400 \<noteq> 0"
  shows "r \<notin> set (main_df all_df start_date end_date)"
proof -
  have "0 \<le> t mod 86400" by simp
  with assms(3) have "0 < t mod 86400" by linarith
  moreover have "t = 86400 * (t div 86400) + t mod 86400" by simp
  ultimately have "end_date * 86400 < t"
    using assms(2) unfolding date_of_def by linarith
  then show ?thesis using assms(1) by (auto simp: set_main_df)
qed

lemma main_df_nonempty_approved:
  "main_df all_df start_date end_date \<noteq> [] \<Longrightarrow>
   approved_times (main_df all_df start_date end_date) \<noteq> []"
proof -
  assume "main_df all_df start_date end_date \<noteq> []"
  then obtain r where r: "r \<in> set (main_df all_df start_date end_date)"
    by (cases "main_df all_df start_date end_date") auto
  then obtain t where "order_approved_at r = Some t"
    using main_df_approved by fastforce
  with r have "t \<in> set (approved_times (main_df all_df start_date end_date))"
    by (auto simp: set_approved_times)
  then show ?thesis by auto
qed

text \<open>
  Claim C3 (the filter returns exactly the rows whose approval date lies in
  \<open>[start, end]\<close>, so every row approved at any time of day on the end date is kept).
  The code compares the full timestamp with midnight at the start of \<open>end_date\<close>: a
  row approved at 10:00 on day 5 has its date inside the range \<open>[5, 5]\<close>, and the
  filter drops it.
\<close>

theorem main_df_drops_end_day_row:
  "order_approved_at (example_row ''o1'' 1 ''A'' ''SP'' (Some 468000) ''toys'') = Some 468000
   \<and> 5 \<le> date_of 468000 \<and> date_of 468000 \<le> 5
   \<and> main_df [example_row ''o1'' 1 ''A'' ''SP'' (Some 468000) ''toys''] 5 5 = []"
  by (simp add: example_simps)

section \<open>The daily orders rollup\<close>

lemma create_daily_orders_df_bins:
  assumes "approved_times df \<noteq> []"
  shows "create_daily_orders_df df =
           map (daily_bin df) [Min (set (map date_of (approved_times df))) ..
                               Max (set (map date_of (approved_times df)))]"
  using assms
  by (simp add: create_daily_orders_df_def min_opt_Min max_opt_Max date_of_Min date_of_Max)

lemma rows_on_empty:
  "d \<notin> set (map date_of (approved_times df)) \<Longrightarrow> rows_on d df = []"
  by (auto simp: rows_on_def set_approved_times filter_empty_conv)

lemma day_daily_bin: "day \<circ> daily_bin df = id"
  by (auto simp: daily_bin_def)

text \<open>
  Claim C2 as stated (one row per day that has an order; days without orders are
  omitted) fails: for orders on day 2 and day 4 only, the rollup has a row for day 3
  with \<open>order_count = 0\<close> and \<open>revenue = 0\<close>.
\<close>

theorem daily_rollup_omits_empty_days_counterexample:
  "main_df example_gap_days 2 4 = example_gap_days
   \<and> rows_on 3 (main_df example_gap_days 2 4) = []
   \<and> map (\<lambda>row. (day row, order_count row, revenue row))
          (create_daily_orders_df (main_df example_gap_days 2 4))
       = [(2, 1, 10), (3, 0, 0), (4, 1, 10)]"
  by (simp add: example_gap_days_def example_simps)

text \<open>
  Claim C2, amended: for a table with at least one approval time, the rollup has exactly
  one row per calendar day from the earliest approval day to the latest one, in
  ascending order; each row counts the distinct orders and sums the prices of the rows
  approved on its day, and a day of that span without rows is present with
  \<open>order_count = 0\<close> and \<open>revenue = 0\<close>.
\<close>

theorem daily_rollup_dense:
  assumes "approved_times df \<noteq> []"
  shows "map day (create_daily_orders_df df) =
           [Min (set (map date_of (approved_times df))) ..
            Max (set (map date_of (approved_times df)))]
       \<and> (\<forall>row \<in> set (create_daily_orders_df df).
             order_count row = card (order_id ` set (rows_on (day row) df))
           \<and> revenue row = sum_list (map price (rows_on (day row) df)))
       \<and> (\<forall>row \<in> set (create_daily_orders_df df).
             day row \<notin> set (map date_of (approved_times df))
             \<longrightarrow> order_count row = 0 \<and> revenue row = 0)"
proof -
  have a: "map day (create_daily_orders_df df) =
           [Min (set (map date_of (approved_times df))) ..
            Max (set (map date_of (approved_times df)))]"
    by (simp add: create_daily_orders_df_bins[OF assms] day_daily_bin)
  have b: "order_count row = card (order_id ` set (rows_on (day row) df))
           \<and> revenue row = sum_list (map price (rows_on (day row) df))"
    if "row \<in> set (create_daily_orders_df df)" for row
    using that by (auto simp: create_daily_orders_df_bins[OF assms] daily_bin_def nunique_card)
  have c: "order_count row = 0 \<and> revenue row = 0"
    if "row \<in> set (create_daily_orders_df df)"
      and "day row \<notin> set (map date_of (approved_times df))" for row
    using b[OF that(1)] rows_on_empty[OF that(2)] by simp
  show ?thesis using a b c by blast
qed

theorem daily_rollup_dense_witness:
  "approved_times example_gap_days \<noteq> []
   \<and> map day (create_daily_orders_df example_gap_days) = [2, 3, 4]"
proof -
  have h: "approved_times example_gap_days \<noteq> []"
    by (simp add: example_gap_days_def example_simps)
  have "set (map date_of (approved_times example_gap_days)) = {2, 4}"
    by (simp add: example_gap_days_def example_simps)
  with daily_rollup_dense[OF h] h show ?thesis by simp
qed

lemma total_orders_approved:
  assumes present: "\<forall>r \<in> set df. order_approved_at r \<noteq> None"
    and fd: "\<forall>r \<in> set df. \<forall>r' \<in> set df. order_id r = order_id r' \<longrightarrow>
               map_option date_of (order_approved_at r) = map_option date_of (order_approved_at r')"
  shows "total_orders df = nunique (map order_id df)"
proof (cases "approved_times df = []")
  case True
  then have "df = []"
    using present
    by (cases df) (auto simp: approved_times_def List.map_filter_simps split: option.splits)
  then show ?thesis
    by (simp add: total_orders_def create_daily_orders_df_def approved_times_def
        List.map_filter_simps min_opt_Nil max_opt_Nil nunique_def)
next
  case False
  let ?lo = "Min (set (map date_of (approved_times df)))"
  let ?hi = "Max (set (map date_of (approved_times df)))"
  let ?k = "\<lambda>r. map_option date_of (order_approved_at r)"
  have cover: "?k ` set df \<subseteq> set (map Some [?lo .. ?hi])"
  proof
    fix x assume "x \<in> ?k ` set df"
    then obtain r where r: "r \<in> set df" "x = ?k r" by auto
    with present obtain t where t: "order_approved_at r = Some t" by auto
    with r have "date_of t \<in> set (map date_of (approved_times df))"
      by (auto simp: set_approved_times)
    then have "?lo \<le> date_of t" "date_of t \<le> ?hi" by simp_all
    with r t show "x \<in> set (map Some [?lo .. ?hi])" by simp
  qed
  have "total_orders df
        = sum_list (map (\<lambda>d. nunique (map order_id (rows_on d df))) [?lo .. ?hi])"
    by (simp add: total_orders_def create_daily_orders_df_bins[OF False] daily_bin_def comp_def)
  also have "\<dots> = sum_list (map (\<lambda>s. nunique (map order_id (filter (\<lambda>r. ?k r = s) df)))
                               (map Some [?lo .. ?hi]))"
    by (simp add: rows_on_def comp_def)
  also have "\<dots> = nunique (map order_id df)"
  proof (rule sum_nunique_groups)
    show "distinct (map Some [?lo .. ?hi])" by (simp add: distinct_map)
    show "?k ` set df \<subseteq> set (map Some [?lo .. ?hi])" by (rule cover)
    show "\<forall>r \<in> set df. \<forall>r' \<in> set df. order_id r = order_id r' \<longrightarrow> ?k r = ?k r'"
      by (rule fd)
  qed
  finally show ?thesis .
qed

text \<open>
  Claim C5 as stated (for every filtered table the order counts of the rollup add up to
  the number of distinct order ids) fails when the lines of one order carry approval
  times on different days: the order is counted once on each of its days.
\<close>

theorem total_orders_distinct_orders_counterexample:
  "main_df example_split_order 2 3 = example_split_order
   \<and> total_orders (main_df example_split_order 2 3) = 2
   \<and> card (order_id ` set (main_df example_split_order 2 3)) = 1"
  by (simp add: example_split_order_def example_simps)

text \<open>
  Claim C5, amended: for every filtered table in which all rows of one order id have
  their approval time on the same calendar day, the sum of \<open>order_count\<close> over the
  rollup (Total Orders) equals the number of distinct order ids of the filtered table.
\<close>

theorem total_orders_distinct_orders:
  assumes "\<forall>r \<in> set (main_df all_df start_date end_date).
           \<forall>r' \<in> set (main_df all_df start_date end_date).
             order_id r = order_id r' \<longrightarrow>
             map_option date_of (order_approved_at r) = map_option date_of (order_approved_at r')"
  shows "total_orders (main_df all_df start_date end_date)
         = card (order_id ` set (main_df all_df start_date end_date))"
proof -
  have "\<forall>r \<in> set (main_df all_df start_date end_date). order_approved_at r \<noteq> None"
    using main_df_approved by blast
  from total_orders_approved[OF this assms] show ?thesis
    by (simp only: nunique_card set_map)
qed

theorem total_orders_distinct_orders_witness:
  "total_orders (main_df example_two_states 2 3) = 3
   \<and> card (order_id ` set (main_df example_two_states 2 3)) = 3"
proof -
  have m: "main_df example_two_states 2 3 = example_two_states"
    by (simp add: example_two_states_def example_simps)
  have c: "card (order_id ` set example_two_states) = 3"
    by (simp add: example_two_states_def example_row_def)
  have "\<forall>r \<in> set (main_df example_two_states 2 3).
        \<forall>r' \<in> set (main_df example_two_states 2 3).
          order_id r = order_id r' \<longrightarrow>
          map_option date_of (order_approved_at r) = map_option date_of (order_approved_at r')"
    unfolding m by (simp add: example_two_states_def example_row_def)
  from total_orders_distinct_orders[OF this] show ?thesis
    using m c by simp
qed

section \<open>Customers by state\<close>

text \<open>
  Claim C6: when \<open>customer_state\<close> is a function of \<open>customer_id\<close> in the table, the
  per-state counts add up to the number of distinct customers; there is one row per
  state, and each count is the number of distinct customer ids among the rows of that
  state (a customer with several orders in a state counts once).
\<close>

theorem bystate_counts_sum_to_distinct_customers:
  assumes "\<forall>r \<in> set df. \<forall>r' \<in> set df.
             customer_id r = customer_id r' \<longrightarrow> customer_state r = customer_state r'"
  shows "sum_list (map snd (create_bystate_df df)) = card (customer_id ` set df)
       \<and> map fst (create_bystate_df df) = sort (remdups (map customer_state df))
       \<and> (\<forall>row \<in> set (create_bystate_df df).
             snd row = card (customer_id ` {r \<in> set df. customer_state r = fst row}))"
proof -
  have "sum_list (map snd (create_bystate_df df))
        = sum_list (map (\<lambda>s. nunique (map customer_id (filter (\<lambda>r. customer_state r = s) df)))
                        (group_keys customer_state df))"
    by (simp add: create_bystate_df_def comp_def)
  also have "\<dots> = nunique (map customer_id df)"
  proof (rule sum_nunique_groups)
    show "distinct (group_keys customer_state df)" by (rule distinct_group_keys)
    show "customer_state ` set df \<subseteq> set (group_keys customer_state df)"
      by (simp add: set_group_keys)
    show "\<forall>r \<in> set df. \<forall>r' \<in> set df.
             customer_id r = customer_id r' \<longrightarrow> customer_state r = customer_state r'"
      by (rule assms)
  qed
  finally have a: "sum_list (map snd (create_bystate_df df)) = card (customer_id ` set df)"
    by (simp add: nunique_card)
  have b: "map fst (create_bystate_df df) = sort (remdups (map customer_state df))"
    by (simp add: create_bystate_df_def comp_def group_keys_def)
  have c: "\<forall>row \<in> set (create_bystate_df df).
             snd row = card (customer_id ` {r \<in> set df. customer_state r = fst row})"
    by (auto simp: create_bystate_df_def nunique_card)
  show ?thesis using a b c by blast
qed

theorem bystate_counts_sum_to_distinct_customers_witness:
  "create_bystate_df example_two_states = [(''RJ'', 1), (''SP'', 1)]
   \<and> sum_list (map snd (create_bystate_df example_two_states)) = 2
   \<and> card (customer_id ` set example_two_states) = 2"
proof -
  have "\<forall>r \<in> set example_two_states. \<forall>r' \<in> set example_two_states.
             customer_id r = customer_id r' \<longrightarrow> customer_state r = customer_state r'"
    by (simp add: example_two_states_def example_row_def)
  from bystate_counts_sum_to_distinct_customers[OF this] show ?thesis
    by (simp add: example_two_states_def example_row_def create_bystate_df_def
        group_keys_def nunique_def)
qed

section \<open>RFM segmentation\<close>

lemmas rfm_simps =
  example_row_def main_df_def to_datetime_def date_of_def approved_times_def
  List.map_filter_simps nunique_def max_opt_def group_keys_def rows_of_customer_def
  create_rfm_df_def rfm_df_def current_date_def recent_date_def

text \<open>
  Claim C1 (every row and value of the displayed RFM table comes from the rows of the
  chosen date range, recency measured from the latest approval of the filtered set).
  Line 85 builds that table, \<open>create_rfm_df main_df\<close>; lines 576-584 then assign
  \<open>rfm_df\<close> again from \<open>all_df\<close>, and that second table is displayed. For the range
  \<open>[0, 0]\<close> the filtered set has customer A only, with recency 0; the displayed table
  lists customer B, approved on day 10, and gives A the recency 10.
\<close>

theorem displayed_rfm_ignores_date_filter:
  "main_df example_far_customers 0 0 = [example_row ''o1'' 1 ''A'' ''SP'' (Some 0) ''toys'']
   \<and> create_rfm_df (main_df example_far_customers 0 0)
       = [\<lparr>rfm_customer_id = ''A'', frequency = 1, monetary = 10, recency = Some 0\<rparr>]
   \<and> rfm_df example_far_customers
       = [\<lparr>rfm_customer_id = ''A'', frequency = 1, monetary = 10, recency = Some 10\<rparr>,
          \<lparr>rfm_customer_id = ''B'', frequency = 1, monetary = 10, recency = Some 0\<rparr>]"
  by (simp add: example_far_customers_def rfm_simps)

text \<open>
  Claim C4 (recency is 0 exactly for the customers whose latest order date is the
  reference date). The displayed table of lines 576-584 takes the whole days of the
  difference of two timestamps: customer A, last approved at 23:00 of day 0, gets
  recency 0 although the reference date is day 1. \<open>create_rfm_df\<close> compares dates and
  gives A the recency 1.
\<close>

theorem displayed_rfm_recency_zero_on_earlier_date:
  "map (\<lambda>row. (rfm_customer_id row, recency row)) (rfm_df example_near_midnight)
     = [(''A'', Some 0), (''B'', Some 0)]
   \<and> map_option date_of (max_opt (approved_times (rows_of_customer example_near_midnight ''A'')))
       = Some 0
   \<and> map_option date_of (current_date example_near_midnight) = Some 1
   \<and> map (\<lambda>row. (rfm_customer_id row, recency row)) (create_rfm_df example_near_midnight)
     = [(''A'', Some 1), (''B'', Some 0)]"
  by (simp add: example_near_midnight_def rfm_simps)

lemma approved_times_filter_subset:
  "set (approved_times (filter P df)) \<subseteq> set (approved_times df)"
  by (auto simp: set_approved_times)

text \<open>
  In the table of \<open>create_rfm_df\<close>, built from rows that all have an approval time,
  recency is a non-negative number of days, and it is 0 exactly for the customers whose
  latest approval date is the latest approval date of the table.
\<close>

lemma create_rfm_df_recency:
  assumes present: "\<forall>r \<in> set df. order_approved_at r \<noteq> None"
    and row: "row \<in> set (create_rfm_df df)"
  shows "\<exists>n x rd. recency row = Some n \<and> 0 \<le> n
           \<and> max_opt (approved_times (rows_of_customer df (rfm_customer_id row))) = Some x
           \<and> recent_date df = Some rd
           \<and> (n = 0 \<longleftrightarrow> date_of x = rd)"
proof -
  from row have "row \<in> (\<lambda>c. \<lparr>rfm_customer_id = c,
                frequency = nunique (map order_id (rows_of_customer df c)),
                monetary = sum_list (map payment_value (rows_of_customer df c)),
                recency =
                  (case (recent_date df, max_opt (approved_times (rows_of_customer df c))) of
                     (Some rd, Some x) \<Rightarrow> Some (rd - date_of x)
                   | _ \<Rightarrow> None)\<rparr>) ` customer_id ` set df"
    by (simp add: create_rfm_df_def set_group_keys)
  then obtain c where c: "c \<in> customer_id ` set df"
    and eq: "row = \<lparr>rfm_customer_id = c,
                frequency = nunique (map order_id (rows_of_customer df c)),
                monetary = sum_list (map payment_value (rows_of_customer df c)),
                recency =
                  (case (recent_date df, max_opt (approved_times (rows_of_customer df c))) of
                     (Some rd, Some x) \<Rightarrow> Some (rd - date_of x)
                   | _ \<Rightarrow> None)\<rparr>"
    by blast
  have r: "recency row =
              (case (recent_date df, max_opt (approved_times (rows_of_customer df c))) of
                 (Some rd, Some x) \<Rightarrow> Some (rd - date_of x) | _ \<Rightarrow> None)"
    and id: "rfm_customer_id row = c"
    by (simp_all add: eq)
  let ?ts = "approved_times (rows_of_customer df c)"
  from c obtain r0 where r0: "r0 \<in> set df" "customer_id r0 = c" by auto
  with present obtain t0 where t0: "order_approved_at r0 = Some t0" by auto
  have "t0 \<in> set ?ts"
    using r0 t0 by (auto simp: set_approved_times rows_of_customer_def)
  then have ne: "?ts \<noteq> []" by auto
  have sub: "set ?ts \<subseteq> set (approved_times df)"
    unfolding rows_of_customer_def by (rule approved_times_filter_subset)
  with ne have ne': "map date_of (approved_times df) \<noteq> []" by auto
  let ?x = "Max (set ?ts)"
  let ?rd = "Max (set (map date_of (approved_times df)))"
  have x: "max_opt ?ts = Some ?x" by (rule max_opt_Max[OF ne])
  have rd: "recent_date df = Some ?rd" unfolding recent_date_def by (rule max_opt_Max[OF ne'])
  have "?x \<in> set ?ts" using ne by (intro Max_in) simp_all
  with sub have "date_of ?x \<in> set (map date_of (approved_times df))" by auto
  then have le: "date_of ?x \<le> ?rd" by (intro Max_ge) simp_all
  have "recency row = Some (?rd - date_of ?x)" using r x rd by simp
  with le x rd id show ?thesis by auto
qed

section \<open>The product quantity ranking\<close>

text \<open>Inside the signed 64-bit range nothing wraps.\<close>

lemma int64_id: "- 9223372036854775808 \<le> x \<Longrightarrow> x < 9223372036854775808 \<Longrightarrow> int64 x = x"
  by (simp add: int64_def)

lemma set_argsort:
  assumes "is_argsort a"
  shows "set (a keys) = {0 ..< length keys}"
proof -
  have "mset (a keys) = mset [0 ..< length keys]"
    using assms by (simp add: is_argsort_def)
  then have "set (a keys) = set [0 ..< length keys]" by (rule mset_eq_setD)
  then show ?thesis by simp
qed

lemma mset_sort_values_asc:
  assumes "is_argsort a"
  shows "mset (sort_values_asc a t) = mset t"
proof -
  have "mset (a (map snd t)) = mset [0 ..< length t]"
    using assms by (simp add: is_argsort_def)
  then have "mset (map (\<lambda>i. t ! i) (a (map snd t))) = mset (map (\<lambda>i. t ! i) [0 ..< length t])"
    by (metis mset_map)
  then show ?thesis by (simp add: sort_values_asc_def map_nth)
qed

lemma sorted_sort_values_asc:
  assumes "is_argsort a"
  shows "sorted (map snd (sort_values_asc a t))"
proof -
  have "map snd (sort_values_asc a t) = map (\<lambda>i. map snd t ! i) (a (map snd t))"
    using set_argsort[OF assms, of "map snd t"] by (auto simp: sort_values_asc_def)
  moreover have "sorted (map (\<lambda>i. map snd t ! i) (a (map snd t)))"
    using assms by (simp add: is_argsort_def)
  ultimately show ?thesis by simp
qed

lemma mset_sort_values_desc:
  "is_argsort a \<Longrightarrow> mset (sort_values_desc a t) = mset t"
  by (simp add: sort_values_desc_def mset_sort_values_asc)

lemma sorted_rev_sort_values_desc:
  "is_argsort a \<Longrightarrow> sorted (rev (map snd (sort_values_desc a t)))"
  by (simp add: sort_values_desc_def rev_map[symmetric] sorted_sort_values_asc)

text \<open>The stable argsort is an argsort.\<close>

lemma is_argsort_stable: "is_argsort stable_argsort"
proof -
  have "mset (stable_argsort keys) = mset [0 ..< length keys]" for keys
  proof -
    have "mset (stable_argsort keys) = mset (map snd (zip keys [0 ..< length keys]))"
      unfolding stable_argsort_def by (simp only: mset_map mset_sort)
    also have "map snd (zip keys [0 ..< length keys]) = [0 ..< length keys]"
      by (rule map_snd_zip) simp
    finally show ?thesis .
  qed
  moreover have "sorted (map (\<lambda>i. keys ! i) (stable_argsort keys))" for keys
  proof -
    let ?z = "zip keys [0 ..< length keys]"
    have "\<forall>p \<in> set ?z. keys ! snd p = fst p"
      by (auto simp: set_zip)
    then have "\<forall>p \<in> set (sort_key fst ?z). keys ! snd p = fst p" by simp
    then have e1: "map (\<lambda>p. keys ! snd p) (sort_key fst ?z) = map fst (sort_key fst ?z)"
      by (intro map_cong) auto
    have e2: "map (\<lambda>i. keys ! i) (stable_argsort keys)
              = map (\<lambda>p. keys ! snd p) (sort_key fst ?z)"
      by (simp add: stable_argsort_def comp_def)
    show ?thesis unfolding e2 e1 by (rule sorted_sort_key)
  qed
  ultimately show ?thesis by (simp add: is_argsort_def)
qed

lemma mset_create_sum_order_items_df:
  "is_argsort a \<Longrightarrow>
   mset (create_sum_order_items_df a df)
     = mset (map (\<lambda>p. (p, quantity_of df p)) (group_keys name_product df))"
  by (simp add: create_sum_order_items_df_def mset_sort_values_desc)

lemma set_create_sum_order_items_df:
  assumes "is_argsort a"
  shows "set (create_sum_order_items_df a df)
         = (\<lambda>p. (p, quantity_of df p)) ` name_product ` set df"
proof -
  have "set (create_sum_order_items_df a df)
        = set (map (\<lambda>p. (p, quantity_of df p)) (group_keys name_product df))"
    using mset_create_sum_order_items_df[OF assms] by (rule mset_eq_setD)
  then show ?thesis by (simp add: set_group_keys)
qed

text \<open>
  The quantities of the ranking in ascending order, whatever the argsort does with
  equal keys.
\<close>

lemma quantities_of_worst_order:
  assumes "is_argsort a"
  shows "map snd (sort_values_asc a (create_sum_order_items_df a df))
         = sort (map (quantity_of df) (group_keys name_product df))"
proof (rule properties_for_sort[symmetric])
  have "mset (sort_values_asc a (create_sum_order_items_df a df))
        = mset (map (\<lambda>p. (p, quantity_of df p)) (group_keys name_product df))"
    using assms by (simp add: mset_sort_values_asc mset_create_sum_order_items_df)
  then have "mset (map snd (sort_values_asc a (create_sum_order_items_df a df)))
        = mset (map snd (map (\<lambda>p. (p, quantity_of df p)) (group_keys name_product df)))"
    by (metis mset_map)
  then show "mset (map snd (sort_values_asc a (create_sum_order_items_df a df)))
        = mset (map (quantity_of df) (group_keys name_product df))"
    by (simp add: comp_def)
  show "sorted (map snd (sort_values_asc a (create_sum_order_items_df a df)))"
    using assms by (rule sorted_sort_values_asc)
qed

lemma quantities_of_best_order:
  assumes "is_argsort a"
  shows "map snd (create_sum_order_items_df a df)
         = rev (sort (map (quantity_of df) (group_keys name_product df)))"
proof -
  have "rev (map snd (create_sum_order_items_df a df))
        = sort (map (quantity_of df) (group_keys name_product df))"
  proof (rule properties_for_sort[symmetric])
    have "mset (map snd (create_sum_order_items_df a df))
          = mset (map snd (map (\<lambda>p. (p, quantity_of df p)) (group_keys name_product df)))"
      using mset_create_sum_order_items_df[OF assms] by (metis mset_map)
    then show "mset (rev (map snd (create_sum_order_items_df a df)))
          = mset (map (quantity_of df) (group_keys name_product df))"
      by (simp add: comp_def)
    show "sorted (rev (map snd (create_sum_order_items_df a df)))"
      unfolding create_sum_order_items_df_def using assms by (rule sorted_rev_sort_values_desc)
  qed
  then show ?thesis by (metis rev_rev_ident)
qed

text \<open>
  Claim C7 as stated (best and worst top-5 are disjoint whenever there are at least 10
  product labels) fails when quantities tie across the two cuts: with ten labels of
  equal quantity and an argsort that keeps equal keys in their order (numpy's on ten
  rows), both rankings show the same five labels.
\<close>

theorem best_worst_disjoint_counterexample:
  "is_argsort stable_argsort
   \<and> 10 \<le> card (name_product ` set example_ten_products)
   \<and> map fst (best_performing stable_argsort example_ten_products)
       = [''p0'', ''p1'', ''p2'', ''p3'', ''p4'']
   \<and> map fst (worst_performing stable_argsort example_ten_products)
       = [''p0'', ''p1'', ''p2'', ''p3'', ''p4'']
   \<and> set (map fst (best_performing stable_argsort example_ten_products))
       \<inter> set (map fst (worst_performing stable_argsort example_ten_products)) \<noteq> {}"
proof -
  have b: "map fst (best_performing stable_argsort example_ten_products)
       = [''p0'', ''p1'', ''p2'', ''p3'', ''p4'']"
    by code_simp
  have w: "map fst (worst_performing stable_argsort example_ten_products)
       = [''p0'', ''p1'', ''p2'', ''p3'', ''p4'']"
    by code_simp
  have c: "10 \<le> card (name_product ` set example_ten_products)"
    by code_simp
  show ?thesis unfolding b w using c is_argsort_stable by simp
qed

text \<open>
  Claim C7, amended: the label sets of the best-performing and the worst-performing
  top-5 are disjoint whenever the table has at least 10 distinct product labels and the
  fifth-smallest quantity is below the fifth-largest one (no tie reaches from one top-5
  into the other). This holds for every argsort, whatever it does with equal keys.
\<close>

theorem best_worst_disjoint:
  assumes a: "is_argsort a"
    and many: "10 \<le> card (name_product ` set df)"
    and gap: "sort (map (quantity_of df) (group_keys name_product df)) ! 4
              < sort (map (quantity_of df) (group_keys name_product df))
                  ! (card (name_product ` set df) - 5)"
  shows "set (map fst (best_performing a df)) \<inter> set (map fst (worst_performing a df)) = {}"
proof -
  let ?qs = "sort (map (quantity_of df) (group_keys name_product df))"
  let ?T = "create_sum_order_items_df a df"
  let ?W = "sort_values_asc a ?T"
  let ?n = "card (name_product ` set df)"
  have n: "length ?qs = ?n"
    by (simp add: group_keys_def length_remdups_card_conv)
  have qT: "map snd ?T = rev ?qs" by (rule quantities_of_best_order[OF a])
  have qW: "map snd ?W = ?qs" by (rule quantities_of_worst_order[OF a])
  have lT: "length ?T = ?n" using arg_cong[OF qT, of length] n by simp
  have lW: "length ?W = ?n" using arg_cong[OF qW, of length] n by simp
  have in_T: "q = quantity_of df l" if "(l, q) \<in> set ?T" for l q
    using that by (auto simp: set_create_sum_order_items_df[OF a])
  have set_W: "set ?W = set ?T"
    using mset_sort_values_asc[OF a, of ?T] by (rule mset_eq_setD)
  have best_ge: "?qs ! (?n - 5) \<le> q" if "(l, q) \<in> set (best_performing a df)" for l q
  proof -
    from that obtain i where i: "i < 5" "i < ?n" "?T ! i = (l, q)"
      by (auto simp: best_performing_def in_set_conv_nth lT)
    have "q = map snd ?T ! i" using i lT by simp
    also have "\<dots> = ?qs ! (?n - Suc i)" using i n by (simp add: qT rev_nth)
    finally have "q = ?qs ! (?n - Suc i)" .
    moreover have "?qs ! (?n - 5) \<le> ?qs ! (?n - Suc i)"
      using i n by (intro sorted_nth_mono) simp_all
    ultimately show ?thesis by simp
  qed
  have worst_le: "q \<le> ?qs ! 4" if "(l, q) \<in> set (worst_performing a df)" for l q
  proof -
    from that obtain i where i: "i < 5" "i < ?n" "?W ! i = (l, q)"
      by (auto simp: worst_performing_def in_set_conv_nth lW)
    have "q = map snd ?W ! i" using i lW by simp
    also have "\<dots> = ?qs ! i" by (simp add: qW)
    finally have "q = ?qs ! i" .
    moreover have "?qs ! i \<le> ?qs ! 4"
      using i n many by (intro sorted_nth_mono) simp_all
    ultimately show ?thesis by simp
  qed
  have False if b: "(l, q1) \<in> set (best_performing a df)"
    and w: "(l, q2) \<in> set (worst_performing a df)" for l q1 q2
  proof -
    have "(l, q1) \<in> set ?T" using b by (auto simp: best_performing_def dest: in_set_takeD)
    then have q1: "q1 = quantity_of df l" by (rule in_T)
    have "(l, q2) \<in> set ?W" using w by (auto simp: worst_performing_def dest: in_set_takeD)
    then have q2: "q2 = quantity_of df l" using set_W in_T by auto
    from best_ge[OF b] worst_le[OF w] gap q1 q2 show False by simp
  qed
  then show ?thesis by fastforce
qed

theorem best_worst_disjoint_witness:
  "map fst (best_performing stable_argsort example_ranked_products)
     = [''p8'', ''p9'', ''p7'', ''p6'', ''p5'']
   \<and> map fst (worst_performing stable_argsort example_ranked_products)
     = [''p0'', ''p1'', ''p2'', ''p3'', ''p4'']
   \<and> set (map fst (best_performing stable_argsort example_ranked_products))
       \<inter> set (map fst (worst_performing stable_argsort example_ranked_products)) = {}"
proof -
  have c: "card (name_product ` set example_ranked_products) = 10"
    by code_simp
  have qs: "sort (map (quantity_of example_ranked_products)
                   (group_keys name_product example_ranked_products))
            = [1, 1, 3, 4, 5, 6, 7, 8, 9, 9]"
    by code_simp
  have gap: "sort (map (quantity_of example_ranked_products)
                   (group_keys name_product example_ranked_products)) ! 4
             < sort (map (quantity_of example_ranked_products)
                   (group_keys name_product example_ranked_products))
                 ! (card (name_product ` set example_ranked_products) - 5)"
    unfolding qs c by simp
  have many: "10 \<le> card (name_product ` set example_ranked_products)"
    unfolding c by simp
  have b: "map fst (best_performing stable_argsort example_ranked_products)
     = [''p8'', ''p9'', ''p7'', ''p6'', ''p5'']"
    by code_simp
  have w: "map fst (worst_performing stable_argsort example_ranked_products)
     = [''p0'', ''p1'', ''p2'', ''p3'', ''p4'']"
    by code_simp
  from best_worst_disjoint[OF is_argsort_stable many gap] b w show ?thesis by simp
qed

lemma sum_list_split_filter:
  "sum_list (map g (filter P xs)) =
     sum_list (map g (filter (\<lambda>r. P r \<and> Q r) xs))
   + sum_list (map g (filter (\<lambda>r. P r \<and> \<not> Q r) xs))"
  for g :: "'a \<Rightarrow> int"
  by (induction xs) auto

lemma sum_list_upto_nat: "sum_list [1 .. int k] = int k * (int k + 1) div 2"
proof (induction k)
  case 0
  then show ?case by simp
next
  case (Suc k)
  have "[1 .. int (Suc k)] = [1 .. int k] @ [int k + 1]"
    using upto_rec2[of 1 "int (Suc k)"] by (simp add: add.commute)
  then have "sum_list [1 .. int (Suc k)] = int k * (int k + 1) div 2 + (int k + 1)"
    using Suc.IH by simp
  also have "\<dots> = (int k * (int k + 1) + 2 * (int k + 1)) div 2"
    by simp
  also have "\<dots> = int (Suc k) * (int (Suc k) + 1) div 2"
    by (simp add: algebra_simps)
  finally show ?case .
qed

lemma triangle_exceeds: "2 \<le> k \<Longrightarrow> int k < int k * (int k + 1) div 2"
proof -
  assume k: "2 \<le> k"
  have "2 * int k + 2 \<le> int k * (int k + 1)"
  proof -
    have "int k * 2 \<le> int k * int k" using k by (intro mult_left_mono) simp_all
    moreover have "int k + 2 \<le> int k * 2" using k by simp
    moreover have "int k * (int k + 1) = int k * int k + int k" by (simp add: algebra_simps)
    ultimately show ?thesis by linarith
  qed
  then have "(2 * int k + 2) div 2 \<le> int k * (int k + 1) div 2"
    by (rule zdiv_mono1) simp
  then show ?thesis by simp
qed


text \<open>
  Claim C10 as stated (the quantity equals the sum of the label's \<open>order_item_id\<close>
  values) fails when the sum leaves the signed 64-bit range: two lines numbered
  \<open>2^63 - 1\<close> and 1 add up to \<open>2^63\<close>, and the quantity is \<open>-2^63\<close>.
\<close>

theorem quantity_is_sum_of_item_ids_counterexample:
  "create_sum_order_items_df stable_argsort example_overflow
     = [(''toys'', - 9223372036854775808)]
   \<and> sum_list (map order_item_id (filter (\<lambda>r. name_product r = ''toys'') example_overflow))
     = 9223372036854775808"
  by code_simp

text \<open>
  Claim C10, amended: whenever the sum of the \<open>order_item_id\<close> values of a product
  label's rows lies in the signed 64-bit range, the quantity shown for the label is
  that sum, not the number of rows. An order whose rows of the label are numbered 1 to
  k then adds k(k+1)/2, which is more than k when k is at least 2.
\<close>

theorem quantity_is_sum_of_item_ids:
  assumes a: "is_argsort a"
    and row: "(p, q) \<in> set (create_sum_order_items_df a df)"
    and lo: "- 9223372036854775808
               \<le> sum_list (map order_item_id (filter (\<lambda>r. name_product r = p) df))"
    and hi: "sum_list (map order_item_id (filter (\<lambda>r. name_product r = p) df))
               < 9223372036854775808"
  shows "q = sum_list (map order_item_id (filter (\<lambda>r. name_product r = p) df))
       \<and> (\<forall>oid k.
             mset (map order_item_id
                     (filter (\<lambda>r. name_product r = p \<and> order_id r = oid) df)) = mset [1 .. int k]
             \<longrightarrow> q = int k * (int k + 1) div 2
                       + sum_list (map order_item_id
                           (filter (\<lambda>r. name_product r = p \<and> order_id r \<noteq> oid) df))
                 \<and> (2 \<le> k \<longrightarrow> int k < int k * (int k + 1) div 2))"
proof -
  have "q = quantity_of df p"
    using row by (auto simp: set_create_sum_order_items_df[OF a])
  then have q: "q = sum_list (map order_item_id (filter (\<lambda>r. name_product r = p) df))"
    unfolding quantity_of_def using lo hi by (simp only: int64_id)
  have "q = int k * (int k + 1) div 2
            + sum_list (map order_item_id
                (filter (\<lambda>r. name_product r = p \<and> order_id r \<noteq> oid) df))"
    if m: "mset (map order_item_id
                   (filter (\<lambda>r. name_product r = p \<and> order_id r = oid) df)) = mset [1 .. int k]"
    for oid k
  proof -
    have "sum_list (map order_item_id (filter (\<lambda>r. name_product r = p \<and> order_id r = oid) df))
          = sum_list [1 .. int k]"
      using arg_cong[OF m, of sum_mset] by (simp only: sum_mset_sum_list)
    then show ?thesis
      unfolding q
      by (subst sum_list_split_filter[where Q = "\<lambda>r. order_id r = oid"])
         (simp add: sum_list_upto_nat)
  qed
  then show ?thesis using q triangle_exceeds by blast
qed

theorem quantity_is_sum_of_item_ids_witness:
  "create_sum_order_items_df stable_argsort example_three_lines = [(''toys'', 7)]
   \<and> length (filter (\<lambda>r. name_product r = ''toys'') example_three_lines) = 4
   \<and> (7::int) = 3 * (3 + 1) div 2
         + sum_list (map order_item_id
             (filter (\<lambda>r. name_product r = ''toys'' \<and> order_id r \<noteq> ''o1'') example_three_lines))"
proof -
  have t: "create_sum_order_items_df stable_argsort example_three_lines = [(''toys'', 7)]"
    by code_simp
  then have row: "(''toys'', 7) \<in> set (create_sum_order_items_df stable_argsort example_three_lines)"
    by simp
  have s: "sum_list (map order_item_id (filter (\<lambda>r. name_product r = ''toys'') example_three_lines))
           = 7"
    by code_simp
  have lo: "- 9223372036854775808
        \<le> sum_list (map order_item_id (filter (\<lambda>r. name_product r = ''toys'') example_three_lines))"
    unfolding s by simp
  have hi: "sum_list (map order_item_id (filter (\<lambda>r. name_product r = ''toys'') example_three_lines))
        < 9223372036854775808"
    unfolding s by simp
  from quantity_is_sum_of_item_ids[OF is_argsort_stable row lo hi]
  have "mset (map order_item_id
                (filter (\<lambda>r. name_product r = ''toys'' \<and> order_id r = ''o1'') example_three_lines))
          = mset [1 .. int 3]
        \<longrightarrow> (7::int) = int 3 * (int 3 + 1) div 2
              + sum_list (map order_item_id
                  (filter (\<lambda>r. name_product r = ''toys'' \<and> order_id r \<noteq> ''o1'')
                     example_three_lines))"
    by blast
  moreover have "mset (map order_item_id
                (filter (\<lambda>r. name_product r = ''toys'' \<and> order_id r = ''o1'') example_three_lines))
          = mset [1 .. int 3]"
    by (simp add: example_three_lines_def example_row_def upto.simps)
  moreover have "length (filter (\<lambda>r. name_product r = ''toys'') example_three_lines) = 4"
    by (simp add: example_three_lines_def example_row_def)
  ultimately show ?thesis using t by simp
qed

section \<open>Geographic bucketing\<close>

lemma index_of_None: "index_of x us = None \<longleftrightarrow> x \<notin> set us"
  by (induction us) auto

lemma index_of_append_in: "x \<in> set us \<Longrightarrow> index_of x (us @ vs) = index_of x us"
  by (induction us) auto

lemma index_of_append_new: "x \<notin> set us \<Longrightarrow> index_of x (us @ [x]) = Some (length us)"
  by (induction us) auto

lemma length_factorize_from: "length (factorize_from us xs) = length xs"
  by (induction us xs rule: factorize_from.induct) (auto split: option.splits)

lemma set_present: "set (List.map_filter id ys) = {y. Some y \<in> set ys}"
  by (force simp: List.map_filter_def)

lemma finite_present: "finite {y. Some y \<in> set ys}"
  unfolding set_present[symmetric] by simp

text \<open>A row without a state gets the sentinel code.\<close>

lemma factorize_from_missing:
  "i < length xs \<Longrightarrow> xs ! i = None \<Longrightarrow> factorize_from us xs ! i = - 1"
proof (induction us xs arbitrary: i rule: factorize_from.induct)
  case (1 uniques)
  then show ?case by simp
next
  case (2 uniques xs)
  then show ?case by (cases i) simp_all
next
  case (3 uniques x xs)
  then show ?case by (cases i) (auto split: option.splits)
qed

text \<open>
  The code of a present value: its position in the table if it is there, otherwise the
  size of the table plus the number of distinct new values that come before its first
  occurrence.
\<close>

lemma factorize_from_present:
  "i < length xs \<Longrightarrow> xs ! i = Some y \<Longrightarrow>
   factorize_from us xs ! i =
     (case index_of y us of
        Some k \<Rightarrow> int k
      | None \<Rightarrow> int (length us
                      + card ({z. Some z \<in> set (takeWhile (\<lambda>v. v \<noteq> Some y) xs)} - set us)))"
proof (induction us xs arbitrary: i rule: factorize_from.induct)
  case (1 uniques)
  then show ?case by simp
next
  case (2 uniques xs)
  show ?case
  proof (cases i)
    case 0
    with "2.prems" show ?thesis by simp
  next
    case (Suc j)
    with "2.prems" have j: "j < length xs" "xs ! j = Some y" by simp_all
    have "{z. Some z \<in> set (takeWhile (\<lambda>v. v \<noteq> Some y) (None # xs))}
          = {z. Some z \<in> set (takeWhile (\<lambda>v. v \<noteq> Some y) xs)}"
      by auto
    then show ?thesis using "2.IH"[OF j] Suc by (simp split: option.splits)
  qed
next
  case (3 us x xs)
  let ?S = "{z. Some z \<in> set (takeWhile (\<lambda>v. v \<noteq> Some y) xs)}"
  let ?S' = "{z. Some z \<in> set (takeWhile (\<lambda>v. v \<noteq> Some y) (Some x # xs))}"
  have fin: "finite ?S"
    by (rule finite_present)
  show ?case
  proof (cases i)
    case 0
    with "3.prems" have "x = y" by simp
    then show ?thesis using 0 by (simp split: option.splits)
  next
    case (Suc j)
    with "3.prems" have j: "j < length xs" "xs ! j = Some y" by simp_all
    show ?thesis
    proof (cases "index_of x us")
      case (Some k)
      then have xin: "x \<in> set us" using index_of_None[of x us] by auto
      have "factorize_from us (Some x # xs) ! i = factorize_from us xs ! j"
        using Some Suc by simp
      also have "\<dots> = (case index_of y us of Some k \<Rightarrow> int k
                         | None \<Rightarrow> int (length us + card (?S - set us)))"
        using "3.IH"(2)[OF Some j] .
      also have "\<dots> = (case index_of y us of Some k \<Rightarrow> int k
                         | None \<Rightarrow> int (length us + card (?S' - set us)))"
      proof (cases "index_of y us")
        case None
        then have "y \<noteq> x" using xin index_of_None[of y us] by auto
        then have "?S' - set us = ?S - set us" using xin by auto
        then show ?thesis using None by simp
      qed simp
      finally show ?thesis .
    next
      case None
      then have xnew: "x \<notin> set us" by (simp add: index_of_None)
      have "factorize_from us (Some x # xs) ! i = factorize_from (us @ [x]) xs ! j"
        using None Suc by simp
      also have "\<dots> = (case index_of y (us @ [x]) of Some k \<Rightarrow> int k
                         | None \<Rightarrow> int (length (us @ [x]) + card (?S - set (us @ [x]))))"
        using "3.IH"(1)[OF None j] .
      also have "\<dots> = (case index_of y us of Some k \<Rightarrow> int k
                         | None \<Rightarrow> int (length us + card (?S' - set us)))"
      proof (cases "y \<in> set us")
        case True
        then obtain k where "index_of y us = Some k"
          using index_of_None[of y us] by auto
        then show ?thesis using True by (simp add: index_of_append_in)
      next
        case False
        then have n: "index_of y us = None" by (simp add: index_of_None)
        show ?thesis
        proof (cases "y = x")
          case True
          then show ?thesis using n xnew by (simp add: index_of_append_new)
        next
          case neq: False
          have "index_of y (us @ [x]) = None"
            using neq False by (simp add: index_of_None)
          moreover have "?S' - set us = insert x (?S - set (us @ [x]))"
            using neq xnew by auto
          moreover have "x \<notin> ?S - set (us @ [x])" by simp
          moreover have "finite (?S - set (us @ [x]))" using fin by simp
          ultimately show ?thesis using n by simp
        qed
      qed
      finally show ?thesis .
    qed
  qed
qed

lemma color_group_nth:
  "i < length geo_df \<Longrightarrow>
   color_group geo_df ! i = factorize (map geo_customer_state geo_df) ! i mod 8"
  by (simp add: color_group_def factorize_def length_factorize_from colors_def)

text \<open>
  Claim C8 as stated (each row gets the first-seen index of its state modulo 8) fails
  for a row without a state: the first row of the table has no distinct value before
  it, so its first-seen index is 0, and it gets colour group 7 (the sentinel code -1
  modulo 8).
\<close>

theorem color_group_first_seen_index_counterexample:
  "geo_customer_state (example_geo_missing ! 0) = None
   \<and> card (set (takeWhile (\<lambda>v. v \<noteq> geo_customer_state (example_geo_missing ! 0))
                           (map geo_customer_state example_geo_missing))) mod 8 = 0
   \<and> color_group example_geo_missing ! 0 = 7
   \<and> color_group example_geo_missing = [7, 0, 7]"
  by (simp add: example_geo_missing_def color_group_def factorize_def colors_def)

text \<open>
  Claim C8, amended: a row whose state is present gets the first-seen index of that
  state among the present states (the number of distinct present states before its
  first occurrence) modulo the palette size 8; a row without a state gets colour group
  7; rows with the same state, or both without one, get the same colour group. The
  bucketing is a function of the table, so running it again gives the same column.
\<close>

theorem color_group_first_seen_index:
  assumes "i < length geo_df"
  shows "length (color_group geo_df) = length geo_df
       \<and> (\<forall>s. geo_customer_state (geo_df ! i) = Some s \<longrightarrow>
             color_group geo_df ! i =
               int (card (set (List.map_filter id
                      (takeWhile (\<lambda>v. v \<noteq> Some s) (map geo_customer_state geo_df))))) mod 8)
       \<and> (geo_customer_state (geo_df ! i) = None \<longrightarrow> color_group geo_df ! i = 7)
       \<and> (\<forall>j < length geo_df.
             geo_customer_state (geo_df ! j) = geo_customer_state (geo_df ! i)
             \<longrightarrow> color_group geo_df ! j = color_group geo_df ! i)"
proof -
  let ?xs = "map geo_customer_state geo_df"
  have len: "length (color_group geo_df) = length geo_df"
    by (simp add: color_group_def factorize_def length_factorize_from)
  have present: "color_group geo_df ! j =
        int (card (set (List.map_filter id (takeWhile (\<lambda>v. v \<noteq> Some s) ?xs)))) mod 8"
    if "j < length geo_df" "geo_customer_state (geo_df ! j) = Some s" for j s
  proof -
    have "factorize ?xs ! j = int (card {z. Some z \<in> set (takeWhile (\<lambda>v. v \<noteq> Some s) ?xs)})"
      using that factorize_from_present[of j ?xs s "[]"] by (simp add: factorize_def)
    then show ?thesis using that(1) by (simp add: color_group_nth set_present)
  qed
  have missing: "color_group geo_df ! j = 7"
    if "j < length geo_df" "geo_customer_state (geo_df ! j) = None" for j
  proof -
    have "factorize ?xs ! j = - 1"
      using that factorize_from_missing[of j ?xs "[]"] by (simp add: factorize_def)
    then show ?thesis using that(1) by (simp add: color_group_nth)
  qed
  have same: "color_group geo_df ! j = color_group geo_df ! i"
    if "j < length geo_df" "geo_customer_state (geo_df ! j) = geo_customer_state (geo_df ! i)" for j
  proof (cases "geo_customer_state (geo_df ! i)")
    case None
    then show ?thesis using that assms missing by simp
  next
    case (Some s)
    then show ?thesis using that assms present by simp
  qed
  show ?thesis using len present[OF assms] missing[OF assms] same by blast
qed

theorem color_group_first_seen_index_witness:
  "2 < length example_geo
   \<and> geo_customer_state (example_geo ! 2) = Some ''SP''
   \<and> color_group example_geo = [0, 1, 0]
   \<and> color_group example_geo ! 2 =
       int (card (set (List.map_filter id
              (takeWhile (\<lambda>v. v \<noteq> Some ''SP'') (map geo_customer_state example_geo))))) mod 8"
proof -
  have h: "2 < length example_geo" by (simp add: example_geo_def)
  have s: "geo_customer_state (example_geo ! 2) = Some ''SP''" by (simp add: example_geo_def)
  have c: "color_group example_geo = [0, 1, 0]"
    by (simp add: example_geo_def color_group_def factorize_def colors_def)
  from color_group_first_seen_index[OF h] s
  have "color_group example_geo ! 2 =
       int (card (set (List.map_filter id
              (takeWhile (\<lambda>v. v \<noteq> Some ''SP'') (map geo_customer_state example_geo))))) mod 8"
    by blast
  with h s c show ?thesis by simp
qed

section \<open>Brazil boundary acquisition\<close>

text \<open>
  A tier succeeds exactly when its reads return and the frame has the column it
  selects on; its value is then the selection, which is empty when no feature is
  named Brazil.
\<close>

lemma local_tier_Inr:
  "local_tier env = Inr b \<longleftrightarrow>
     (\<exists>path world. get_path env = Inr path \<and> read_file env path = Inr world
        \<and> ''name'' \<in> set (columns world)
        \<and> b = world\<lparr>features :=
                 filter (\<lambda>f. map_of (fst f) ''name'' = Some ''Brazil'') (features world)\<rparr>)"
  by (auto simp: local_tier_def select_eq_def split: sum.splits)

lemma network_tier_Inr:
  "network_tier env = Inr b \<longleftrightarrow>
     (\<exists>countries. read_file env brazil_url = Inr countries
        \<and> ''ADMIN'' \<in> set (columns countries)
        \<and> b = countries\<lparr>features :=
                 filter (\<lambda>f. map_of (fst f) ''ADMIN'' = Some ''Brazil'') (features countries)\<rparr>)"
  by (auto simp: network_tier_def select_eq_def split: sum.splits)





end
